theory Spec2Isabelle
  imports Main "HOL-Library.AList"
begin

section \<open>JavaScript values\<close>

text \<open>
  The manager of \<^verbatim>\<open>src/Mumsys/Generic/Manager.js\<close> and its older copy
  \<^verbatim>\<open>src/Mumsys/Generic_Manager.js\<close> work on untyped JavaScript values. The two files
  differ in field names (\<^verbatim>\<open>__itemList\<close> / \<^verbatim>\<open>_itemList\<close>, \<^verbatim>\<open>__map\<close> / \<^verbatim>\<open>_map\<close>,
  \<^verbatim>\<open>__flags.isLoaded\<close> / \<^verbatim>\<open>_loaded\<close>) and in layout, not in what the functions embedded
  here compute, so one embedding stands for both.

  Values: numbers are the integer-valued ones (no fractions, no NaN); a plain object is
  its list of own properties in insertion order; a function value is known by its source
  text only; an item object is a reference into the store of items. Properties inherited
  from \<^verbatim>\<open>Object.prototype\<close> or \<^verbatim>\<open>Array.prototype\<close> are not represented.
\<close>

type_synonym ref = nat

datatype jsval =
    VUndefined
  | VNull
  | VBool bool
  | VNum int
  | VStr string
  | VObj "(string \<times> jsval) list"
  | VFun string
  | VItem ref

type_synonym jsobj = "(string \<times> jsval) list"

text \<open>
  \<^verbatim>\<open>o[k]\<close> for the properties the object has of its own: the value of the property,
  \<^verbatim>\<open>undefined\<close> when there is none. A key that names a member of
  \<^verbatim>\<open>Object.prototype\<close> (\<^verbatim>\<open>constructor\<close>, \<^verbatim>\<open>toString\<close>, ...) and is not an own
  property reads the inherited function in JavaScript; that case is outside this function.
\<close>

definition obj_get :: "jsobj \<Rightarrow> string \<Rightarrow> jsval" where
  "obj_get ob k = (case map_of ob k of None \<Rightarrow> VUndefined | Some v \<Rightarrow> v)"

text \<open>\<^verbatim>\<open>o[k] = v\<close>: an existing property keeps its place, a new one goes last.\<close>

definition obj_set :: "jsobj \<Rightarrow> string \<Rightarrow> jsval \<Rightarrow> jsobj" where
  "obj_set ob k v = AList.update k v ob"

text \<open>The keys a \<^verbatim>\<open>for (var k in o)\<close> loop visits.\<close>

definition obj_keys :: "jsobj \<Rightarrow> string list" where
  "obj_keys ob = map fst ob"

text \<open>Decimal digits of a natural number, as \<^verbatim>\<open>String(n)\<close> prints them.\<close>

fun string_of_nat :: "nat \<Rightarrow> string" where
  "string_of_nat n =
     (if n < 10 then [''0123456789'' ! n]
      else string_of_nat (n div 10) @ [''0123456789'' ! (n mod 10)])"

declare string_of_nat.simps [simp del]

text \<open>
  \<^verbatim>\<open>String(v)\<close>, which is also the property key that \<^verbatim>\<open>o[v]\<close> uses: JavaScript
  objects have string keys only, so \<^verbatim>\<open>o[1]\<close> and \<^verbatim>\<open>o["1"]\<close> are the same property.
\<close>

fun to_string :: "jsval \<Rightarrow> string" where
  "to_string VUndefined = ''undefined''"
| "to_string VNull = ''null''"
| "to_string (VBool b) = (if b then ''true'' else ''false'')"
| "to_string (VNum n) =
     (if n < 0 then ''-'' @ string_of_nat (nat (- n)) else string_of_nat (nat n))"
| "to_string (VStr s) = s"
| "to_string (VObj ob) = ''[object Object]''"
| "to_string (VFun src) = src"
| "to_string (VItem r) = ''[object Object]''"

text \<open>What \<^verbatim>\<open>if (v)\<close> takes as true.\<close>

fun truthy :: "jsval \<Rightarrow> bool" where
  "truthy VUndefined = False"
| "truthy VNull = False"
| "truthy (VBool b) = b"
| "truthy (VNum n) = (n \<noteq> 0)"
| "truthy (VStr s) = (s \<noteq> [])"
| "truthy (VObj ob) = True"
| "truthy (VFun src) = True"
| "truthy (VItem r) = True"

text \<open>
  \<^verbatim>\<open>a === b\<close>: same type and same value, no conversion; two item objects are equal when
  they are the same reference. Plain objects carry no identity here, so two of them are
  compared by their properties.
\<close>

definition strict_eq :: "jsval \<Rightarrow> jsval \<Rightarrow> bool" where
  "strict_eq a b = (a = b)"

section \<open>The generic item\<close>

text \<open>
  Modelled from the spec: the class \<^verbatim>\<open>Mumsys_Generic_Item\<close> is used by the manager and is
  not part of the sources. The spec gives it as a key/value record with \<^verbatim>\<open>get(key)\<close>,
  \<^verbatim>\<open>set(key, value)\<close>, \<^verbatim>\<open>getProperties()\<close>, \<^verbatim>\<open>isModified()\<close> and
  \<^verbatim>\<open>setModified(bool)\<close>, built from a plain property mapping, with a modification flag
  that \<^verbatim>\<open>set\<close> and \<^verbatim>\<open>setModified\<close> change. The manager calls \<^verbatim>\<open>set\<close> only
  in a callback that runs after \<^verbatim>\<open>saveItem\<close> has returned, so it is left out.
\<close>

record item =
  props :: jsobj
  modified :: bool

definition item_get :: "item \<Rightarrow> jsval \<Rightarrow> jsval" where
  "item_get it key = obj_get (props it) (to_string key)"

definition getProperties :: "item \<Rightarrow> jsval" where
  "getProperties it = VObj (props it)"

definition isModified :: "item \<Rightarrow> bool" where
  "isModified it = modified it"

definition setModified :: "bool \<Rightarrow> item \<Rightarrow> item" where
  "setModified b it = it\<lparr>modified := b\<rparr>"

section \<open>The manager and its surroundings\<close>

text \<open>
  The fields of a \<^verbatim>\<open>Mumsys_Generic_Manager\<close>: the request address, the list of items
  (references), the loaded flag and the map from item id to list position.
\<close>

record manager =
  url :: jsval
  itemList :: "ref list"
  loaded :: bool
  map_idx :: jsobj

text \<open>
  What a call can read or change: the manager, the item objects behind the references,
  and the requests handed to \<^verbatim>\<open>jQuery.ajax\<close> so far (oldest first).
\<close>

record world =
  mgr :: manager
  heap :: "ref \<Rightarrow> item"
  ajax :: "jsobj list"

text \<open>\<^verbatim>\<open>throw new Error(message)\<close>.\<close>

datatype error = Error string

text \<open>The constructor: \<^verbatim>\<open>url\<close> replaces the default address when it is truthy.\<close>

definition Mumsys_Generic_Manager :: "jsval \<Rightarrow> manager" where
  "Mumsys_Generic_Manager u =
     \<lparr>url = (if truthy u then u else VStr ''jsonrpc.php''),
      itemList = [], loaded = False, map_idx = []\<rparr>"

subsection \<open>addItem\<close>

definition duplicate_message :: "jsval \<Rightarrow> string" where
  "duplicate_message idv =
     [CHR 0x22] @ ''id'' @ [CHR 0x22] @ '' ('' @ to_string idv @ '') is unique and already exists''"

definition addItem :: "jsval \<Rightarrow> world \<Rightarrow> (error + unit) \<times> world" where
  "addItem it w =
     (case it of
        VItem r \<Rightarrow>
          (let idv = item_get (heap w r) (VStr ''id'') in
           if idv \<noteq> VUndefined \<and> obj_get (map_idx (mgr w)) (to_string idv) \<noteq> VUndefined
           then (Inl (Error (duplicate_message idv)), w)
           else
             (let m1 = (if idv \<noteq> VUndefined
                        then (mgr w)\<lparr>map_idx :=
                               obj_set (map_idx (mgr w)) (to_string idv)
                                 (VNum (int (length (itemList (mgr w)))))\<rparr>
                        else mgr w);
                  m2 = m1\<lparr>itemList := itemList m1 @ [r]\<rparr>
              in (Inr (), w\<lparr>mgr := m2\<rparr>)))
      | _ \<Rightarrow> (Inl (Error ''Invalid item''), w))"

subsection \<open>removeItem\<close>

text \<open>
  The loop \<^verbatim>\<open>for (var i = 0; i < this.__itemList.length; i++)\<close>: \<open>i\<close> is the loop
  counter, the list argument holds the items from position \<open>i\<close> on, \<open>tmp\<close> and
  \<open>tmpmap\<close> are the two locals being filled.
\<close>

fun removeItem_loop ::
  "(ref \<Rightarrow> item) \<Rightarrow> jsval \<Rightarrow> nat \<Rightarrow> ref list \<Rightarrow> ref list \<Rightarrow> jsobj \<Rightarrow> ref list \<times> jsobj" where
  "removeItem_loop h idv i [] tmp tmpmap = (tmp, tmpmap)"
| "removeItem_loop h idv i (r # rs) tmp tmpmap =
     (let itemID = item_get (h r) (VStr ''id'') in
      if \<not> strict_eq itemID idv
      then removeItem_loop h idv (Suc i) rs (tmp @ [r])
             (obj_set tmpmap (to_string itemID) (VNum (int i)))
      else removeItem_loop h idv (Suc i) rs tmp tmpmap)"

definition removeItem :: "jsval \<Rightarrow> world \<Rightarrow> world" where
  "removeItem idv w =
     (case removeItem_loop (heap w) idv 0 (itemList (mgr w)) [] [] of
        (tmp, tmpmap) \<Rightarrow> w\<lparr>mgr := (mgr w)\<lparr>itemList := tmp, map_idx := tmpmap\<rparr>\<rparr>)"

subsection \<open>getItems, getItem, clear, isLoaded\<close>

definition getItems :: "world \<Rightarrow> ref list" where
  "getItems w = itemList (mgr w)"

text \<open>
  \<^verbatim>\<open>list[v]\<close> on the item array: a number in range, or a string that is the decimal
  form of one, reads that element; \<^verbatim>\<open>"length"\<close> reads the length; anything else
  is \<^verbatim>\<open>undefined\<close>. Nothing is raised out of range.
\<close>

definition arr_get :: "ref list \<Rightarrow> jsval \<Rightarrow> jsval" where
  "arr_get xs v =
     (case v of
        VNum n \<Rightarrow> (if 0 \<le> n \<and> nat n < length xs then VItem (xs ! nat n) else VUndefined)
      | VStr s \<Rightarrow>
          (if s = ''length'' then VNum (int (length xs))
           else (case find (\<lambda>i. string_of_nat i = s) [0..<length xs] of
                   Some i \<Rightarrow> VItem (xs ! i)
                 | None \<Rightarrow> VUndefined))
      | _ \<Rightarrow> VUndefined)"

text \<open>The final loop of \<^verbatim>\<open>getItem\<close>: the first item whose property equals the value.\<close>

fun getItem_scan :: "(ref \<Rightarrow> item) \<Rightarrow> jsval \<Rightarrow> jsval \<Rightarrow> jsval \<Rightarrow> ref list \<Rightarrow> jsval" where
  "getItem_scan h key val defreturn [] = defreturn"
| "getItem_scan h key val defreturn (r # rs) =
     (if strict_eq (item_get (h r) key) val then VItem r
      else getItem_scan h key val defreturn rs)"

definition getItem :: "jsval \<Rightarrow> jsval \<Rightarrow> jsval \<Rightarrow> world \<Rightarrow> jsval" where
  "getItem key val defreturn w =
     (if strict_eq key (VStr ''idx'') then
        (if strict_eq val (VNum (- 1)) then
           (let k = (if int (length (itemList (mgr w))) - 1 < 0 then 0
                     else int (length (itemList (mgr w))) - 1)
            in arr_get (itemList (mgr w)) (VNum k))
         else arr_get (itemList (mgr w)) val)
      else if strict_eq key (VStr ''id'')
              \<and> obj_get (map_idx (mgr w)) (to_string key) \<noteq> VUndefined then
        arr_get (itemList (mgr w)) (obj_get (map_idx (mgr w)) (to_string key))
      else getItem_scan (heap w) key val defreturn (itemList (mgr w)))"

definition clear :: "world \<Rightarrow> world" where
  "clear w = w\<lparr>mgr := (mgr w)\<lparr>itemList := [], map_idx := []\<rparr>\<rparr>"

definition isLoaded :: "world \<Rightarrow> bool" where
  "isLoaded w = loaded (mgr w)"

subsection \<open>The request parameters\<close>

text \<open>
  \<^verbatim>\<open>_buildParams(defaultParams, dataParams, requestParams)\<close>. The third argument is an
  object, or a falsy value such as the \<^verbatim>\<open>false\<close> that \<^verbatim>\<open>loadItems\<close> and
  \<^verbatim>\<open>saveItem\<close> pass by default (\<open>None\<close>). The two loops walk the keys of one object
  and read the values by key, as the source does.
\<close>

fun buildParams_defaults :: "jsobj \<Rightarrow> jsobj \<Rightarrow> string list \<Rightarrow> jsobj \<Rightarrow> jsobj" where
  "buildParams_defaults defaultParams requestParams [] ob = ob"
| "buildParams_defaults defaultParams requestParams (keyA # ks) ob =
     (if obj_get requestParams keyA = VUndefined
      then buildParams_defaults defaultParams requestParams ks
             (obj_set ob keyA (obj_get defaultParams keyA))
      else buildParams_defaults defaultParams requestParams ks ob)"

fun buildParams_request :: "jsobj \<Rightarrow> string list \<Rightarrow> jsobj \<Rightarrow> jsobj" where
  "buildParams_request requestParams [] ob = ob"
| "buildParams_request requestParams (keyB # ks) ob =
     (if obj_get requestParams keyB \<noteq> VNull
      then buildParams_request requestParams ks (obj_set ob keyB (obj_get requestParams keyB))
      else buildParams_request requestParams ks ob)"

definition buildParams :: "jsobj \<Rightarrow> jsval \<Rightarrow> jsobj option \<Rightarrow> jsobj" where
  "buildParams defaultParams dataParams requestParams =
     (let ob = (case requestParams of
                  Some rp \<Rightarrow>
                    buildParams_request rp (obj_keys rp)
                      (buildParams_defaults defaultParams rp (obj_keys defaultParams) [])
                | None \<Rightarrow> defaultParams)
      in obj_set ob ''data'' dataParams)"

subsection \<open>saveItem\<close>

text \<open>
  The part of \<^verbatim>\<open>saveItem\<close> that runs before it returns. \<^verbatim>\<open>params.item = ...\<close>
  changes the caller's object, so the parameters are returned with the result. The
  callbacks handed to \<^verbatim>\<open>jQuery.ajax\<close> and \<^verbatim>\<open>.done\<close> run after the return, if at
  all; the model records the request and stops there.
\<close>

definition saveItem_defaults :: "world \<Rightarrow> jsobj" where
  "saveItem_defaults w =
     [(''url'', url (mgr w)), (''type'', VStr ''POST''),
      (''fail'', VFun ''function ( obj, textStatus, errorThrown )'')]"

definition saveItem ::
  "ref \<Rightarrow> jsobj \<Rightarrow> jsobj option \<Rightarrow> world \<Rightarrow> (error + ref) \<times> jsobj \<times> world" where
  "saveItem it params requestParams w =
     (if obj_get params ''item'' \<noteq> VUndefined
      then (Inl (Error ''params.item property already defined''), params, w)
      else if isModified (heap w it) then
        (let params1 = obj_set params ''item'' (getProperties (heap w it));
             reqParams = buildParams (saveItem_defaults w) (VObj params1) requestParams;
             w1 = w\<lparr>ajax := ajax w @ [reqParams]\<rparr>;
             w2 = w1\<lparr>heap := (heap w1)(it := setModified False (heap w1 it))\<rparr>
         in (Inr it, params1, w2))
      else (Inr it, params, w))"

subsection \<open>Sequences of mutations\<close>

text \<open>
  A caller's sequence of \<^verbatim>\<open>addItem\<close>, \<^verbatim>\<open>removeItem\<close> and \<^verbatim>\<open>clear\<close> calls. A
  call that throws leaves the state it has reached, and the sequence goes on from there.
\<close>

datatype mutation = AddItem jsval | RemoveItem jsval | Clear

fun apply_mutation :: "mutation \<Rightarrow> world \<Rightarrow> world" where
  "apply_mutation (AddItem it) w = snd (addItem it w)"
| "apply_mutation (RemoveItem idv) w = removeItem idv w"
| "apply_mutation Clear w = clear w"

fun run :: "mutation list \<Rightarrow> world \<Rightarrow> world" where
  "run [] w = w"
| "run (m # ms) w = run ms (apply_mutation m w)"

section \<open>The index invariant\<close>

text \<open>
  The invariant the spec asks of the list and the map: the item at every position that
  has a defined id is found in the map under that id with that position, and every key of
  the map leads to a position of the list whose item has that key as its id.
\<close>

definition indexed_at :: "world \<Rightarrow> nat \<Rightarrow> bool" where
  "indexed_at w p =
     (let idv = item_get (heap w (itemList (mgr w) ! p)) (VStr ''id'') in
      if idv = VUndefined then True
      else obj_get (map_idx (mgr w)) (to_string idv) = VNum (int p))"

definition key_live :: "world \<Rightarrow> string \<Rightarrow> bool" where
  "key_live w k =
     (case obj_get (map_idx (mgr w)) k of
        VNum n \<Rightarrow>
          0 \<le> n \<and> nat n < length (itemList (mgr w))
          \<and> (let idv = item_get (heap w (itemList (mgr w) ! nat n)) (VStr ''id'') in
               idv \<noteq> VUndefined \<and> to_string idv = k)
      | _ \<Rightarrow> False)"

definition index_consistent :: "world \<Rightarrow> bool" where
  "index_consistent w =
     (list_all (indexed_at w) [0..<length (itemList (mgr w))]
      \<and> list_all (key_live w) (obj_keys (map_idx (mgr w))))"

section \<open>Example states\<close>

definition example_item :: "jsobj \<Rightarrow> item" where
  "example_item ps = \<lparr>props = ps, modified = False\<rparr>"

text \<open>A manager just constructed, beside a store of items.\<close>

definition fresh :: "(ref \<Rightarrow> item) \<Rightarrow> world" where
  "fresh h = \<lparr>mgr = Mumsys_Generic_Manager (VBool False), heap = h, ajax = []\<rparr>"

text \<open>
  The items A, B and C of the spec, with the ids 1, 2 and 3, and an item D whose id is
  the string "1".
\<close>

definition refA :: ref where "refA = 0"

definition refB :: ref where "refB = 1"

definition refC :: ref where "refC = 2"

definition refD :: ref where "refD = 3"

definition heap_abc :: "ref \<Rightarrow> item" where
  "heap_abc r =
     (if r = refA then example_item [(''id'', VNum 1)]
      else if r = refB then example_item [(''id'', VNum 2)]
      else if r = refC then example_item [(''id'', VNum 3)]
      else if r = refD then example_item [(''id'', VStr ''1'')]
      else example_item [])"

definition world_abc :: world where
  "world_abc =
     run [AddItem (VItem refA), AddItem (VItem refB), AddItem (VItem refC)] (fresh heap_abc)"

text \<open>An item with unsaved changes, beside a manager just constructed.\<close>

definition heap_dirty :: "ref \<Rightarrow> item" where
  "heap_dirty r = \<lparr>props = [(''id'', VNum 1), (''name'', VStr ''a'')], modified = True\<rparr>"

definition world_dirty :: world where
  "world_dirty = fresh heap_dirty"

text \<open>Two items X and Y: the id of X is the string "id", the id of Y is the number 3.\<close>

definition refX :: ref where "refX = 0"

definition refY :: ref where "refY = 1"

definition heap_xy :: "ref \<Rightarrow> item" where
  "heap_xy r =
     (if r = refX then example_item [(''id'', VStr ''id'')]
      else example_item [(''id'', VNum 3)])"

definition world_x :: world where
  "world_x = run [AddItem (VItem refX)] (fresh heap_xy)"

text \<open>The mutations that are not a \<^verbatim>\<open>removeItem\<close>.\<close>

fun no_remove :: "mutation \<Rightarrow> bool" where
  "no_remove (RemoveItem idv) = False"
| "no_remove m = True"

section \<open>Properties\<close>

lemmas example_defs =
  world_abc_def fresh_def heap_abc_def example_item_def refA_def refB_def refC_def refD_def
  Mumsys_Generic_Manager_def

lemmas eval_defs =
  addItem_def removeItem_def clear_def getItems_def getItem_def arr_get_def item_get_def
  obj_get_def obj_set_def obj_keys_def strict_eq_def string_of_nat.simps Let_def

lemma world_abc_eq:
  "world_abc =
     \<lparr>mgr = \<lparr>url = VStr ''jsonrpc.php'', itemList = [refA, refB, refC], loaded = False,
              map_idx = [(''1'', VNum 0), (''2'', VNum 1), (''3'', VNum 2)]\<rparr>,
      heap = heap_abc, ajax = []\<rparr>"
  by (simp add: example_defs eval_defs)

lemma obj_get_obj_set: "obj_get (obj_set ob k v) k' = (if k' = k then v else obj_get ob k')"
  by (simp add: obj_get_def obj_set_def update_conv')

subsection \<open>The index invariant under the mutations\<close>

text \<open>
  addItem and clear keep the invariant, from any state that has it; so does every sequence
  of the two from a fresh manager.
\<close>

lemma set_obj_keys_obj_set: "set (obj_keys (obj_set ob k v)) = insert k (set (obj_keys ob))"
  by (simp add: obj_keys_def obj_set_def dom_update)

lemma indexed_at_iff:
  "indexed_at w p \<longleftrightarrow>
     (item_get (heap w (itemList (mgr w) ! p)) (VStr ''id'') = VUndefined
      \<or> obj_get (map_idx (mgr w))
           (to_string (item_get (heap w (itemList (mgr w) ! p)) (VStr ''id''))) = VNum (int p))"
  by (simp add: indexed_at_def Let_def)

lemma key_live_iff:
  "key_live w k \<longleftrightarrow>
     (\<exists>p. obj_get (map_idx (mgr w)) k = VNum (int p) \<and> p < length (itemList (mgr w))
          \<and> item_get (heap w (itemList (mgr w) ! p)) (VStr ''id'') \<noteq> VUndefined
          \<and> to_string (item_get (heap w (itemList (mgr w) ! p)) (VStr ''id'')) = k)"
proof
  assume "key_live w k"
  then obtain n where n: "obj_get (map_idx (mgr w)) k = VNum n" "0 \<le> n"
      "nat n < length (itemList (mgr w))"
      "item_get (heap w (itemList (mgr w) ! nat n)) (VStr ''id'') \<noteq> VUndefined"
      "to_string (item_get (heap w (itemList (mgr w) ! nat n)) (VStr ''id'')) = k"
    by (auto simp add: key_live_def Let_def split: jsval.splits)
  then have "obj_get (map_idx (mgr w)) k = VNum (int (nat n))" by simp
  with n show "\<exists>p. obj_get (map_idx (mgr w)) k = VNum (int p) \<and> p < length (itemList (mgr w))
          \<and> item_get (heap w (itemList (mgr w) ! p)) (VStr ''id'') \<noteq> VUndefined
          \<and> to_string (item_get (heap w (itemList (mgr w) ! p)) (VStr ''id'')) = k"
    by blast
next
  assume "\<exists>p. obj_get (map_idx (mgr w)) k = VNum (int p) \<and> p < length (itemList (mgr w))
          \<and> item_get (heap w (itemList (mgr w) ! p)) (VStr ''id'') \<noteq> VUndefined
          \<and> to_string (item_get (heap w (itemList (mgr w) ! p)) (VStr ''id'')) = k"
  then show "key_live w k"
    by (auto simp add: key_live_def Let_def)
qed

lemma index_consistent_iff:
  "index_consistent w \<longleftrightarrow>
     (\<forall>p < length (itemList (mgr w)). indexed_at w p)
     \<and> (\<forall>k \<in> set (obj_keys (map_idx (mgr w))). key_live w k)"
  by (auto simp add: index_consistent_def list_all_iff)

lemma addItem_index_consistent:
  assumes "index_consistent w"
  shows "index_consistent (snd (addItem it w))"
proof (cases it)
  case (VItem r)
  let ?idv = "item_get (heap w r) (VStr ''id'')"
  let ?n = "length (itemList (mgr w))"
  from assms have I1: "\<And>p. p < ?n \<Longrightarrow> indexed_at w p"
    and I2: "\<And>k. k \<in> set (obj_keys (map_idx (mgr w))) \<Longrightarrow> key_live w k"
    by (simp_all add: index_consistent_iff)
  show ?thesis
  proof (cases "?idv = VUndefined")
    case True
    with VItem have w': "snd (addItem it w) = w\<lparr>mgr := (mgr w)\<lparr>itemList := itemList (mgr w) @ [r]\<rparr>\<rparr>"
      by (simp add: addItem_def Let_def)
    show ?thesis
      unfolding w' index_consistent_iff
    proof (intro conjI allI impI ballI)
      fix p assume "p < length (itemList (mgr (w\<lparr>mgr := (mgr w)\<lparr>itemList := itemList (mgr w) @ [r]\<rparr>\<rparr>)))"
      then have "p < ?n \<or> p = ?n" by auto
      then show "indexed_at (w\<lparr>mgr := (mgr w)\<lparr>itemList := itemList (mgr w) @ [r]\<rparr>\<rparr>) p"
        using I1 [of p] True by (auto simp add: indexed_at_iff nth_append)
    next
      fix k assume "k \<in> set (obj_keys (map_idx (mgr (w\<lparr>mgr := (mgr w)\<lparr>itemList := itemList (mgr w) @ [r]\<rparr>\<rparr>))))"
      then have "key_live w k" using I2 by simp
      then show "key_live (w\<lparr>mgr := (mgr w)\<lparr>itemList := itemList (mgr w) @ [r]\<rparr>\<rparr>) k"
        by (auto simp add: key_live_iff nth_append)
    qed
  next
    case False
    show ?thesis
    proof (cases "obj_get (map_idx (mgr w)) (to_string ?idv) = VUndefined")
      case dup: False
      with False VItem have "snd (addItem it w) = w" by (simp add: addItem_def Let_def)
      with assms show ?thesis by simp
    next
      case new: True
      let ?w' = "w\<lparr>mgr := (mgr w)\<lparr>map_idx := obj_set (map_idx (mgr w)) (to_string ?idv) (VNum (int ?n)),
                                  itemList := itemList (mgr w) @ [r]\<rparr>\<rparr>"
      from new False VItem have w': "snd (addItem it w) = ?w'"
        by (simp add: addItem_def Let_def)
      show ?thesis
        unfolding w' index_consistent_iff
      proof (intro conjI allI impI ballI)
        fix p assume "p < length (itemList (mgr ?w'))"
        then have "p < ?n \<or> p = ?n" by auto
        then show "indexed_at ?w' p"
          using I1 [of p] new by (auto simp add: indexed_at_iff nth_append obj_get_obj_set)
      next
        fix k assume "k \<in> set (obj_keys (map_idx (mgr ?w')))"
        then have "k = to_string ?idv \<or> k \<in> set (obj_keys (map_idx (mgr w)))"
          by (simp add: set_obj_keys_obj_set)
        then show "key_live ?w' k"
        proof
          assume "k = to_string ?idv"
          with False show ?thesis
            by (auto simp add: key_live_iff nth_append obj_get_obj_set)
        next
          assume "k \<in> set (obj_keys (map_idx (mgr w)))"
          then have "key_live w k" by (rule I2)
          with new show ?thesis
            by (auto simp add: key_live_iff nth_append obj_get_obj_set)
        qed
      qed
    qed
  qed
qed (insert assms, simp_all add: addItem_def)

lemma fresh_index_consistent: "index_consistent (fresh h)"
  by (simp add: index_consistent_def fresh_def Mumsys_Generic_Manager_def obj_keys_def)

lemma clear_index_consistent: "index_consistent (clear w)"
  by (simp add: index_consistent_def clear_def obj_keys_def)

lemma run_index_consistent:
  "index_consistent w \<Longrightarrow> list_all no_remove ms \<Longrightarrow> index_consistent (run ms w)"
proof (induction ms arbitrary: w)
  case Nil
  then show ?case by simp
next
  case (Cons m ms)
  from Cons.prems have "index_consistent (apply_mutation m w)"
    by (cases m) (simp_all add: addItem_index_consistent clear_index_consistent)
  with Cons show ?case by simp
qed

text \<open>
  C1: the invariant does not survive removeItem. From a fresh manager, add A(id=1),
  B(id=2), C(id=3) and remove id 2: the list is [A, C], and the rebuilt map is
  {1: 0, 3: 2}. The loop stores the position \<^verbatim>\<open>i\<close> that an item had in the old list,
  so the map sends id 3 to position 2, while C is now at position 1 and position 2 does
  not exist.
\<close>

theorem removeItem_breaks_index:
  "index_consistent world_abc
   \<and> run [AddItem (VItem refA), AddItem (VItem refB), AddItem (VItem refC), RemoveItem (VNum 2)]
         (fresh heap_abc) = removeItem (VNum 2) world_abc
   \<and> getItems (removeItem (VNum 2) world_abc) = [refA, refC]
   \<and> map_idx (mgr (removeItem (VNum 2) world_abc)) = [(''1'', VNum 0), (''3'', VNum 2)]
   \<and> \<not> index_consistent (removeItem (VNum 2) world_abc)"
proof -
  have a: "index_consistent world_abc"
    by (simp add: world_abc_eq index_consistent_def indexed_at_def key_live_def heap_abc_def
        example_item_def refA_def refB_def refC_def item_get_def obj_get_def obj_keys_def
        string_of_nat.simps)
  have b: "run [AddItem (VItem refA), AddItem (VItem refB), AddItem (VItem refC), RemoveItem (VNum 2)]
         (fresh heap_abc) = removeItem (VNum 2) world_abc"
    by (simp add: world_abc_def)
  have c: "mgr (removeItem (VNum 2) world_abc)
           = \<lparr>url = VStr ''jsonrpc.php'', itemList = [refA, refC], loaded = False,
              map_idx = [(''1'', VNum 0), (''3'', VNum 2)]\<rparr>"
    by (simp add: world_abc_eq heap_abc_def example_item_def refA_def refB_def refC_def eval_defs)
  have d: "heap (removeItem (VNum 2) world_abc) = heap_abc"
    by (simp add: world_abc_eq removeItem_def split: prod.split)
  have e: "\<not> index_consistent (removeItem (VNum 2) world_abc)"
    by (simp add: c d index_consistent_def indexed_at_def key_live_def heap_abc_def
        example_item_def refA_def refB_def refC_def item_get_def obj_get_def obj_keys_def
        string_of_nat.simps)
  from a b c d e show ?thesis by (simp add: getItems_def)
qed

subsection \<open>addItem followed by getItem("id", ...)\<close>

lemma world_x_eq:
  "world_x = \<lparr>mgr = \<lparr>url = VStr ''jsonrpc.php'', itemList = [refX], loaded = False,
                       map_idx = [(''id'', VNum 0)]\<rparr>, heap = heap_xy, ajax = []\<rparr>"
  by (simp add: world_x_def fresh_def Mumsys_Generic_Manager_def heap_xy_def example_item_def
      refX_def eval_defs)

text \<open>
  C5: getItem("id", value) looks the map up under the literal key "id", not under the
  value. With an item X whose id is the string "id" in the collection, adding Y with the
  unused id 3 makes the list one longer, and getItem("id", 3) then returns X, not Y.
\<close>

theorem getItem_id_literal_key:
  "getItems world_x = [refX]
   \<and> item_get (heap world_x refX) (VStr ''id'') = VStr ''id''
   \<and> item_get (heap world_x refY) (VStr ''id'') = VNum 3
   \<and> fst (addItem (VItem refY) world_x) = Inr ()
   \<and> getItems (snd (addItem (VItem refY) world_x)) = [refX, refY]
   \<and> map_idx (mgr (snd (addItem (VItem refY) world_x))) = [(''id'', VNum 0), (''3'', VNum 1)]
   \<and> getItem (VStr ''id'') (VNum 3) VUndefined (snd (addItem (VItem refY) world_x)) = VItem refX
   \<and> refX \<noteq> refY"
proof -
  have a: "addItem (VItem refY) world_x =
             (Inr (), \<lparr>mgr = \<lparr>url = VStr ''jsonrpc.php'', itemList = [refX, refY], loaded = False,
                              map_idx = [(''id'', VNum 0), (''3'', VNum 1)]\<rparr>,
                       heap = heap_xy, ajax = []\<rparr>)"
    by (simp add: world_x_eq heap_xy_def example_item_def refX_def refY_def eval_defs)
  have b: "item_get (heap world_x refX) (VStr ''id'') = VStr ''id''"
    "item_get (heap world_x refY) (VStr ''id'') = VNum 3"
    by (simp_all add: world_x_eq heap_xy_def example_item_def refX_def refY_def item_get_def
        obj_get_def)
  have c: "getItem (VStr ''id'') (VNum 3) VUndefined (snd (addItem (VItem refY) world_x)) = VItem refX"
    by (simp add: a getItem_def strict_eq_def obj_get_def arr_get_def)
  have d: "refX \<noteq> refY" by (simp add: refX_def refY_def)
  from a b c d show ?thesis by (simp add: getItems_def world_x_eq)
qed

text \<open>
  The map has string keys, so the ids 1 and "1" share one entry: with A(id=1) in the
  collection, an item whose id is the string "1", which no item of the list has, is
  refused as a duplicate.
\<close>

lemma addItem_string_id_refused:
  "list_all (\<lambda>r. \<not> strict_eq (item_get (heap world_abc r) (VStr ''id'')) (VStr ''1''))
     (getItems world_abc)
   \<and> item_get (heap world_abc refD) (VStr ''id'') = VStr ''1''
   \<and> addItem (VItem refD) world_abc = (Inl (Error (duplicate_message (VStr ''1''))), world_abc)"
  by (simp add: world_abc_eq heap_abc_def example_item_def refA_def refB_def refC_def refD_def
      getItems_def addItem_def item_get_def obj_get_def strict_eq_def)

subsection \<open>addItem on a duplicate id\<close>

text \<open>
  C3: in every state, adding an item whose id is defined and already has an entry in the
  map throws the "is unique and already exists" error, and the state after the call is
  the state before it: the item list, the map and everything else are untouched.
\<close>

theorem addItem_duplicate:
  assumes "item_get (heap w r) (VStr ''id'') = idv"
    and "idv \<noteq> VUndefined"
    and "obj_get (map_idx (mgr w)) (to_string idv) \<noteq> VUndefined"
  shows "addItem (VItem r) w = (Inl (Error (duplicate_message idv)), w)"
  using assms by (simp add: addItem_def)

theorem addItem_duplicate_witness:
  "item_get (heap world_abc refA) (VStr ''id'') = VNum 1
   \<and> VNum 1 \<noteq> VUndefined
   \<and> obj_get (map_idx (mgr world_abc)) (to_string (VNum 1)) \<noteq> VUndefined
   \<and> addItem (VItem refA) world_abc = (Inl (Error (duplicate_message (VNum 1))), world_abc)"
proof -
  have h1: "item_get (heap world_abc refA) (VStr ''id'') = VNum 1"
    by (simp add: world_abc_eq heap_abc_def example_item_def item_get_def obj_get_def)
  have h2: "VNum 1 \<noteq> VUndefined" by simp
  have h3: "obj_get (map_idx (mgr world_abc)) (to_string (VNum 1)) \<noteq> VUndefined"
    by (simp add: world_abc_eq obj_get_def string_of_nat.simps)
  from addItem_duplicate [OF h1 h2 h3] h1 h2 h3 show ?thesis by simp
qed

subsection \<open>removeItem and the item list\<close>

lemma removeItem_loop_no_match:
  "\<forall>r \<in> set rs. \<not> strict_eq (item_get (h r) (VStr ''id'')) idv \<Longrightarrow>
   fst (removeItem_loop h idv i rs tmp tmpmap) = tmp @ rs"
  by (induction rs arbitrary: i tmp tmpmap) simp_all

lemma removeItem_loop_filter:
  "fst (removeItem_loop h idv i rs tmp tmpmap) =
     tmp @ filter (\<lambda>r. \<not> strict_eq (item_get (h r) (VStr ''id'')) idv) rs"
  by (induction rs arbitrary: i tmp tmpmap) simp_all

lemma getItems_removeItem:
  "getItems (removeItem idv w) = fst (removeItem_loop (heap w) idv 0 (getItems w) [] [])"
  by (simp add: removeItem_def getItems_def split: prod.split)

text \<open>
  C4: on the collection [A(id=1), B(id=2), C(id=3)], removeItem(2) leaves exactly the
  list [A, C] in that order, after which getItem("idx", 1) is C. In every state,
  removeItem with an id that no item of the list has (compared with \<^verbatim>\<open>!==\<close>, so the
  string "3" is not the number 3) leaves the item list, and so its length, as it was.
\<close>

theorem removeItem_list:
  "getItems world_abc = [refA, refB, refC]
   \<and> getItems (removeItem (VNum 2) world_abc) = [refA, refC]
   \<and> getItem (VStr ''idx'') (VNum 1) d (removeItem (VNum 2) world_abc) = VItem refC
   \<and> ((\<forall>r \<in> set (getItems w). \<not> strict_eq (item_get (heap w r) (VStr ''id'')) idv)
        \<longrightarrow> getItems (removeItem idv w) = getItems w
            \<and> length (getItems (removeItem idv w)) = length (getItems w))
   \<and> \<not> strict_eq (VStr ''3'') (VNum 3)"
proof -
  have a: "getItems world_abc = [refA, refB, refC]"
    by (simp add: world_abc_eq getItems_def)
  have b: "getItems (removeItem (VNum 2) world_abc) = [refA, refC]"
    by (simp add: world_abc_eq heap_abc_def example_item_def refA_def refB_def refC_def eval_defs)
  have c: "getItem (VStr ''idx'') (VNum 1) d (removeItem (VNum 2) world_abc) = VItem refC"
    using b by (simp add: getItem_def getItems_def arr_get_def strict_eq_def)
  have e: "(\<forall>r \<in> set (getItems w). \<not> strict_eq (item_get (heap w r) (VStr ''id'')) idv)
        \<longrightarrow> getItems (removeItem idv w) = getItems w
            \<and> length (getItems (removeItem idv w)) = length (getItems w)"
    by (simp add: getItems_removeItem removeItem_loop_no_match)
  have f: "\<not> strict_eq (VStr ''3'') (VNum 3)"
    by (simp add: strict_eq_def)
  from a b c e f show ?thesis by blast
qed

theorem removeItem_list_witness:
  "list_all (\<lambda>r. \<not> strict_eq (item_get (heap world_abc r) (VStr ''id'')) (VStr ''3''))
     (getItems world_abc)
   \<and> getItems (removeItem (VStr ''3'') world_abc) = [refA, refB, refC]
   \<and> length (getItems (removeItem (VStr ''3'') world_abc)) = 3"
proof -
  have h: "\<forall>r \<in> set (getItems world_abc).
             \<not> strict_eq (item_get (heap world_abc r) (VStr ''id'')) (VStr ''3'')"
    by (simp add: world_abc_eq getItems_def heap_abc_def example_item_def refA_def refB_def
        refC_def item_get_def obj_get_def strict_eq_def)
  have g: "getItems world_abc = [refA, refB, refC]"
    by (simp add: world_abc_eq getItems_def)
  from removeItem_list [where w = world_abc and idv = "VStr ''3''"] h g
  show ?thesis by (simp add: list_all_iff)
qed

subsection \<open>getItem by position\<close>

lemma arr_get_last:
  "xs \<noteq> [] \<Longrightarrow> arr_get xs (VNum (int (length xs) - 1)) = VItem (last xs)"
  by (cases xs rule: rev_cases) (simp_all add: arr_get_def)

text \<open>
  C9: getItem("idx", -1) on a collection that is not empty is its last item (the third of
  the three items A, B, C); on an empty collection it reads position 0 and the result is
  \<^verbatim>\<open>undefined\<close>. getItem has no throw and the read raises nothing.
\<close>

theorem getItem_idx_last:
  "(getItems w \<noteq> [] \<longrightarrow>
      getItem (VStr ''idx'') (VNum (- 1)) d w = VItem (last (getItems w)))
   \<and> (getItems w = [] \<longrightarrow>
      getItem (VStr ''idx'') (VNum (- 1)) d w = arr_get (getItems w) (VNum 0)
      \<and> getItem (VStr ''idx'') (VNum (- 1)) d w = VUndefined)
   \<and> getItem (VStr ''idx'') (VNum (- 1)) d world_abc = VItem refC"
proof -
  have ne: "getItem (VStr ''idx'') (VNum (- 1)) d v = VItem (last (getItems v))"
    if "getItems v \<noteq> []" for v
  proof -
    from that have "\<not> int (length (itemList (mgr v))) - 1 < 0"
      by (cases "itemList (mgr v)") (simp_all add: getItems_def)
    with that arr_get_last [of "itemList (mgr v)"] show ?thesis
      by (simp add: getItem_def strict_eq_def getItems_def)
  qed
  have em: "getItem (VStr ''idx'') (VNum (- 1)) d w = arr_get (getItems w) (VNum 0)
      \<and> getItem (VStr ''idx'') (VNum (- 1)) d w = VUndefined" if "getItems w = []"
    using that by (simp add: getItem_def strict_eq_def getItems_def arr_get_def)
  have "getItems world_abc \<noteq> []" "last (getItems world_abc) = refC"
    by (simp_all add: world_abc_eq getItems_def)
  with ne [of world_abc] have "getItem (VStr ''idx'') (VNum (- 1)) d world_abc = VItem refC"
    by simp
  with ne [of w] em show ?thesis by blast
qed

theorem getItem_idx_last_witness:
  "getItems world_abc = [refA, refB, refC]
   \<and> getItem (VStr ''idx'') (VNum (- 1)) VNull world_abc = VItem refC
   \<and> getItems (fresh heap_abc) = []
   \<and> getItem (VStr ''idx'') (VNum (- 1)) VNull (fresh heap_abc) = VUndefined"
proof -
  have a: "getItems world_abc = [refA, refB, refC]"
    by (simp add: world_abc_eq getItems_def)
  have b: "getItems (fresh heap_abc) = []"
    by (simp add: fresh_def Mumsys_Generic_Manager_def getItems_def)
  from getItem_idx_last [of world_abc VNull] getItem_idx_last [of "fresh heap_abc" VNull] a b
  show ?thesis by (simp add: arr_get_def)
qed

subsection \<open>The merge of request parameters\<close>

lemma map_of_obj_set: "map_of (obj_set ob k v) = (map_of ob)(k \<mapsto> v)"
  by (simp add: obj_set_def update_conv')

lemma buildParams_defaults_skips:
  "obj_get requestParams k \<noteq> VUndefined \<Longrightarrow>
   map_of (buildParams_defaults defaultParams requestParams ks ob) k = map_of ob k"
  by (induction ks arbitrary: ob) (auto simp add: map_of_obj_set)

lemma buildParams_request_skips:
  "obj_get requestParams k = VNull \<Longrightarrow>
   map_of (buildParams_request requestParams ks ob) k = map_of ob k"
  by (induction ks arbitrary: ob) (auto simp add: map_of_obj_set)

text \<open>
  C2, as the code has it: for all defaults, data and overrides and every key k other than
  "data" with overrides[k] exactly null, the bag that _buildParams returns has no
  property k of its own, whatever defaults[k] is: the first loop copies a default only
  where overrides[k] is \<^verbatim>\<open>undefined\<close>, and the second loop skips null. Under the key
  "data" the bag holds the data argument.
\<close>

theorem buildParams_null_override:
  assumes "obj_get overrides k = VNull"
  shows "if k = ''data''
         then obj_get (buildParams defaults dat (Some overrides)) k = dat
         else k \<notin> set (obj_keys (buildParams defaults dat (Some overrides)))"
proof -
  let ?ob = "buildParams_request overrides (obj_keys overrides)
               (buildParams_defaults defaults overrides (obj_keys defaults) [])"
  from assms have "obj_get overrides k \<noteq> VUndefined" by simp
  then have "map_of ?ob k = None"
    using assms by (simp add: buildParams_request_skips buildParams_defaults_skips)
  then have m: "map_of (buildParams defaults dat (Some overrides)) k
               = (if k = ''data'' then Some dat else None)"
    by (simp add: buildParams_def map_of_obj_set)
  show ?thesis
  proof (cases "k = ''data''")
    case True
    with m show ?thesis by (simp add: obj_get_def)
  next
    case False
    with m have "k \<notin> set (obj_keys (buildParams defaults dat (Some overrides)))"
      by (simp add: obj_keys_def map_of_eq_None_iff)
    with False show ?thesis by simp
  qed
qed

theorem buildParams_null_override_witness:
  "obj_get [(''b'', VNull)] ''b'' = VNull
   \<and> ''b'' \<in> set (obj_keys [(''a'', VNum 1), (''b'', VNum 2)])
   \<and> ''b'' \<notin> set (obj_keys
         (buildParams [(''a'', VNum 1), (''b'', VNum 2)] (VObj []) (Some [(''b'', VNull)])))"
proof -
  have h: "obj_get [(''b'', VNull)] ''b'' = VNull" by (simp add: obj_get_def)
  from buildParams_null_override [OF h, of "[(''a'', VNum 1), (''b'', VNum 2)]" "VObj []"] h
  show ?thesis by (simp add: obj_keys_def)
qed

text \<open>
  C2 as stated fails: with defaults {a:1} and overrides {a:null}, the bag is {data:{}} and
  its property a is not defaults[a].
\<close>

theorem buildParams_null_override_counterexample:
  "obj_get [(''a'', VNull)] ''a'' = VNull
   \<and> obj_get [(''a'', VNum 1)] ''a'' = VNum 1
   \<and> buildParams [(''a'', VNum 1)] (VObj []) (Some [(''a'', VNull)]) = [(''data'', VObj [])]
   \<and> obj_get (buildParams [(''a'', VNum 1)] (VObj []) (Some [(''a'', VNull)])) ''a''
       \<noteq> obj_get [(''a'', VNum 1)] ''a''"
  by (simp add: buildParams_def obj_get_def obj_set_def obj_keys_def)

text \<open>
  C6: _buildParams with defaults {a:1, b:2}, data {x:1} and overrides {b:3, c:4} returns
  exactly {a:1, b:3, c:4, data:{x:1}}; and for all inputs, with or without overrides, the
  data property of the returned bag is the data argument, whatever data key the defaults
  or the overrides had.
\<close>

theorem buildParams_data:
  "buildParams [(''a'', VNum 1), (''b'', VNum 2)] (VObj [(''x'', VNum 1)])
       (Some [(''b'', VNum 3), (''c'', VNum 4)])
     = [(''a'', VNum 1), (''b'', VNum 3), (''c'', VNum 4), (''data'', VObj [(''x'', VNum 1)])]
   \<and> obj_get (buildParams defaults dat overrides) ''data'' = dat"
proof -
  have "buildParams [(''a'', VNum 1), (''b'', VNum 2)] (VObj [(''x'', VNum 1)])
       (Some [(''b'', VNum 3), (''c'', VNum 4)])
     = [(''a'', VNum 1), (''b'', VNum 3), (''c'', VNum 4), (''data'', VObj [(''x'', VNum 1)])]"
    by (simp add: buildParams_def obj_get_def obj_set_def obj_keys_def)
  moreover have "obj_get (buildParams defaults dat overrides) ''data'' = dat"
    by (simp add: buildParams_def obj_get_obj_set)
  ultimately show ?thesis by simp
qed

subsection \<open>saveItem\<close>

text \<open>
  The request path, for comparison: a modified item and params without an item property
  give one request, with the item's properties under params.item, and the flag is
  cleared on return.
\<close>

lemma saveItem_modified:
  assumes "isModified (heap w it)" and "obj_get params ''item'' = VUndefined"
  shows "fst (saveItem it params requestParams w) = Inr it
         \<and> ajax (snd (snd (saveItem it params requestParams w)))
             = ajax w @ [buildParams (saveItem_defaults w)
                           (VObj (obj_set params ''item'' (getProperties (heap w it))))
                           requestParams]
         \<and> \<not> isModified (heap (snd (snd (saveItem it params requestParams w))) it)
         \<and> mgr (snd (snd (saveItem it params requestParams w))) = mgr w"
  using assms by (simp add: saveItem_def Let_def isModified_def setModified_def)

lemma saveItem_modified_example:
  "fst (saveItem refA [(''action'', VStr ''save'')] None world_dirty) = Inr refA
   \<and> ajax (snd (snd (saveItem refA [(''action'', VStr ''save'')] None world_dirty)))
       = [[(''url'', VStr ''jsonrpc.php''), (''type'', VStr ''POST''),
           (''fail'', VFun ''function ( obj, textStatus, errorThrown )''),
           (''data'', VObj [(''action'', VStr ''save''),
                            (''item'', VObj [(''id'', VNum 1), (''name'', VStr ''a'')])])]]"
  by (simp add: saveItem_def Let_def world_dirty_def fresh_def heap_dirty_def isModified_def
      getProperties_def saveItem_defaults_def buildParams_def obj_set_def obj_get_def
      Mumsys_Generic_Manager_def)

text \<open>
  C7: for every item that is not modified and every params without an item property,
  saveItem hands nothing to jQuery.ajax and returns the reference it was given; the
  manager, the item and the params are as before.
\<close>

theorem saveItem_unmodified:
  assumes "\<not> isModified (heap w it)"
    and "obj_get params ''item'' = VUndefined"
  shows "saveItem it params requestParams w = (Inr it, params, w)
         \<and> ajax (snd (snd (saveItem it params requestParams w))) = ajax w
         \<and> mgr (snd (snd (saveItem it params requestParams w))) = mgr w
         \<and> heap (snd (snd (saveItem it params requestParams w))) it = heap w it"
  using assms by (simp add: saveItem_def)

theorem saveItem_unmodified_witness:
  "\<not> isModified (heap world_abc refA)
   \<and> obj_get [(''action'', VStr ''save'')] ''item'' = VUndefined
   \<and> saveItem refA [(''action'', VStr ''save'')] None world_abc
       = (Inr refA, [(''action'', VStr ''save'')], world_abc)
   \<and> ajax (snd (snd (saveItem refA [(''action'', VStr ''save'')] None world_abc))) = []"
proof -
  have h1: "\<not> isModified (heap world_abc refA)"
    by (simp add: world_abc_eq heap_abc_def example_item_def isModified_def)
  have h2: "obj_get [(''action'', VStr ''save'')] ''item'' = VUndefined"
    by (simp add: obj_get_def)
  have "ajax world_abc = []" by (simp add: world_abc_eq)
  with saveItem_unmodified [OF h1 h2, of None] h1 h2 show ?thesis by simp
qed

text \<open>
  C8: for every item, modified or not, and every params whose item property is already
  defined, saveItem throws "params.item property already defined" and nothing has been
  handed to jQuery.ajax: the state is the one before the call.
\<close>

theorem saveItem_reserved_key:
  assumes "obj_get params ''item'' \<noteq> VUndefined"
  shows "saveItem it params requestParams w
           = (Inl (Error ''params.item property already defined''), params, w)
         \<and> ajax (snd (snd (saveItem it params requestParams w))) = ajax w"
  using assms by (simp add: saveItem_def)

theorem saveItem_reserved_key_witness:
  "obj_get [(''item'', VNum 5)] ''item'' \<noteq> VUndefined
   \<and> \<not> isModified (heap world_abc refA)
   \<and> saveItem refA [(''item'', VNum 5)] None world_abc
       = (Inl (Error ''params.item property already defined''), [(''item'', VNum 5)], world_abc)
   \<and> isModified (heap world_dirty refA)
   \<and> saveItem refA [(''item'', VNum 5)] None world_dirty
       = (Inl (Error ''params.item property already defined''), [(''item'', VNum 5)], world_dirty)"
proof -
  have h: "obj_get [(''item'', VNum 5)] ''item'' \<noteq> VUndefined"
    by (simp add: obj_get_def)
  have c: "\<not> isModified (heap world_abc refA)"
    by (simp add: world_abc_eq heap_abc_def example_item_def isModified_def)
  have d: "isModified (heap world_dirty refA)"
    by (simp add: world_dirty_def fresh_def heap_dirty_def isModified_def)
  from saveItem_reserved_key [OF h, of refA None world_abc]
    saveItem_reserved_key [OF h, of refA None world_dirty] h c d
  show ?thesis by simp
qed

subsection \<open>clear and the loaded flag\<close>

text \<open>
  C10: clear empties the item list and the map and leaves the loaded flag alone: in every
  state, isLoaded answers after clear what it answered before.
\<close>

theorem clear_keeps_loaded:
  "isLoaded (clear w) = isLoaded w \<and> getItems (clear w) = [] \<and> map_idx (mgr (clear w)) = []"
  by (simp add: isLoaded_def clear_def getItems_def)

end
